theory Spec2Isabelle
  imports Complex_Main "HOL-Library.Log_Nat"
begin

section \<open>KML to GeoJSON conversion: scripts/kml_to_geojson.py\<close>

text \<open>
  The script reads a KML document with \<^verbatim>\<open>xml.etree.ElementTree\<close>, maps every
  Placemark below the root to at most one GeoJSON feature and writes the collection as
  JSON. This theory embeds the three functions of the script, \<^verbatim>\<open>parse_coordinates\<close>,
  \<^verbatim>\<open>placemark_to_feature\<close> and \<^verbatim>\<open>convert\<close>, together with the parts of the Python
  library they rely on (\<^verbatim>\<open>str.strip\<close>, \<^verbatim>\<open>str.split\<close>, \<^verbatim>\<open>float\<close>, \<^verbatim>\<open>dict\<close> assignment,
  \<^verbatim>\<open>Element.find\<close>, \<^verbatim>\<open>Element.findall\<close>).

  A Python string is modelled as a \<^typ>\<open>string\<close> whose characters are code points; the
  model therefore covers text with code points up to U+00FF.
\<close>

subsection \<open>Python strings\<close>

text \<open>
  The characters for which \<^verbatim>\<open>str.isspace\<close> holds, among the code points up to U+00FF:
  U+0009 to U+000D, U+001C to U+001F, U+0020, U+0085 and U+00A0. Both \<^verbatim>\<open>str.strip()\<close>
  and \<^verbatim>\<open>str.split()\<close> use this class.
\<close>

definition is_space :: "char \<Rightarrow> bool" where
  "is_space c = (of_char c \<in> {9, 10, 11, 12, 13, 28, 29, 30, 31, 32, 133, 160 :: nat})"

text \<open>\<^verbatim>\<open>s.strip()\<close>: leading and trailing whitespace removed.\<close>

definition strip :: "string \<Rightarrow> string" where
  "strip s = rev (dropWhile is_space (rev (dropWhile is_space s)))"

text \<open>
  \<^verbatim>\<open>s.split()\<close>: the maximal runs of non-whitespace characters, in order. The first
  argument is the run read so far.
\<close>

fun split_ws_from :: "string \<Rightarrow> string \<Rightarrow> string list" where
  "split_ws_from cur [] = (if cur = [] then [] else [cur])"
| "split_ws_from cur (c # cs) =
     (if is_space c
      then (if cur = [] then split_ws_from [] cs else cur # split_ws_from [] cs)
      else split_ws_from (cur @ [c]) cs)"

definition split_ws :: "string \<Rightarrow> string list" where
  "split_ws s = split_ws_from [] s"

text \<open>
  \<^verbatim>\<open>s.split(sep)\<close> for a one-character separator: every separator ends a field, empty
  fields are kept, and the result always has at least one field.
\<close>

fun split_on_from :: "char \<Rightarrow> string \<Rightarrow> string \<Rightarrow> string list" where
  "split_on_from sep cur [] = [cur]"
| "split_on_from sep cur (c # cs) =
     (if c = sep then cur # split_on_from sep [] cs else split_on_from sep (cur @ [c]) cs)"

definition split_on :: "char \<Rightarrow> string \<Rightarrow> string list" where
  "split_on sep s = split_on_from sep [] s"

subsection \<open>Python floats\<close>

text \<open>
  A Python \<^verbatim>\<open>float\<close> is an IEEE 754 binary64 value: a finite value (sign and magnitude, so
  that \<^verbatim>\<open>-0.0\<close> differs from \<^verbatim>\<open>0.0\<close>), an infinity, or not-a-number.
\<close>

datatype pyfloat = Finite bool rat | Infinity bool | NaN

fun is_finite :: "pyfloat \<Rightarrow> bool" where
  "is_finite (Finite neg q) = True"
| "is_finite (Infinity neg) = False"
| "is_finite NaN = False"

definition pow2 :: "int \<Rightarrow> rat" where
  "pow2 k = (if 0 \<le> k then 2 ^ nat k else 1 / 2 ^ nat (- k))"

definition pow10 :: "int \<Rightarrow> rat" where
  "pow10 k = (if 0 \<le> k then 10 ^ nat k else 1 / 10 ^ nat (- k))"

definition round_half_even :: "rat \<Rightarrow> int" where
  "round_half_even x =
     (let n = \<lfloor>x\<rfloor>; r = x - of_int n
      in if r < 1 / 2 then n else if 1 / 2 < r then n + 1 else if even n then n else n + 1)"

text \<open>The binary exponent \<open>e\<close> of a positive rational: \<open>2 ^ e \<le> q < 2 ^ (e + 1)\<close>.\<close>

definition floor_log2 :: "rat \<Rightarrow> int" where
  "floor_log2 q = (case quotient_of q of (a, b) \<Rightarrow>
      (let k = bitlen a - bitlen b in if pow2 k \<le> q then k else k - 1))"

text \<open>
  The correctly rounded conversion of a magnitude \<open>q \<ge> 0\<close> to binary64 (round to nearest,
  ties to even): 53 significant bits, the exponent no smaller than -1022 (below it the
  values are subnormal, spaced \<open>2 ^ -1074\<close> apart), and overflow to infinity: the
  rounded value \<open>n * 2 ^ (e - 52)\<close> reaches \<open>2 ^ 1024\<close> when the exponent is at least
  1024, or is 1023 and the significand rounds up to \<open>2 ^ 53\<close>.
\<close>

definition to_binary64 :: "bool \<Rightarrow> rat \<Rightarrow> pyfloat" where
  "to_binary64 neg q =
     (if q = 0 then Finite neg 0
      else let e = max (floor_log2 q) (- 1022);
               n = round_half_even (q / pow2 (e - 52))
           in if 1024 \<le> e \<or> (e = 1023 \<and> n = 2 ^ 53) then Infinity neg
              else Finite neg (of_int n * pow2 (e - 52)))"

definition is_digit :: "char \<Rightarrow> bool" where
  "is_digit c = (48 \<le> (of_char c :: nat) \<and> (of_char c :: nat) \<le> 57)"

definition digits_val :: "string \<Rightarrow> nat" where
  "digits_val ds = foldl (\<lambda>n c. 10 * n + (of_char c - 48)) 0 ds"

text \<open>
  \<^verbatim>\<open>float\<close> allows single underscores between digits. The first argument is the
  previous character (initially NUL): an underscore must follow a digit and be followed
  by a digit.
\<close>

fun underscores_ok :: "char \<Rightarrow> string \<Rightarrow> bool" where
  "underscores_ok prev [] = (prev \<noteq> CHR ''_'')"
| "underscores_ok prev (c # cs) =
     (if c = CHR ''_'' then is_digit prev \<and> underscores_ok c cs
      else (prev = CHR ''_'' \<longrightarrow> is_digit c) \<and> underscores_ok c cs)"

definition to_lower :: "char \<Rightarrow> char" where
  "to_lower c = (if 65 \<le> (of_char c :: nat) \<and> (of_char c :: nat) \<le> 90
                 then char_of (of_char c + (32::nat)) else c)"

text \<open>
  The whitespace \<^verbatim>\<open>float\<close> removes around its argument: in an all-ASCII string the
  characters U+0009 to U+000D and U+0020; when the string has a non-ASCII character,
  U+0085 and U+00A0 as well (they are turned into spaces first).
\<close>

definition float_space :: "string \<Rightarrow> char \<Rightarrow> bool" where
  "float_space s c =
     (of_char c \<in> {9, 10, 11, 12, 13, 32 :: nat} \<or>
      ((\<exists>d \<in> set s. 128 \<le> (of_char d :: nat)) \<and> of_char c \<in> {133, 160 :: nat}))"

text \<open>An optional sign: whether it is a minus, and the rest.\<close>

fun take_sign :: "string \<Rightarrow> bool \<times> string" where
  "take_sign [] = (False, [])"
| "take_sign (c # cs) =
     (if c = CHR ''-'' then (True, cs) else if c = CHR ''+'' then (False, cs) else (False, c # cs))"

text \<open>
  The exponent part: nothing, or \<^verbatim>\<open>e\<close> or \<^verbatim>\<open>E\<close>, an optional sign and at least one
  digit, up to the end of the string.
\<close>

definition parse_exponent :: "string \<Rightarrow> int option" where
  "parse_exponent s =
     (case s of
        [] \<Rightarrow> Some 0
      | c # cs \<Rightarrow>
          if c = CHR ''e'' \<or> c = CHR ''E''
          then (case take_sign cs of (neg, ds) \<Rightarrow>
                  if ds \<noteq> [] \<and> list_all is_digit ds
                  then Some (if neg then - int (digits_val ds) else int (digits_val ds))
                  else None)
          else None)"

text \<open>
  An unsigned decimal number: digits, an optional point and more digits, with at least
  one digit in all, then the exponent part. The result is the exact value denoted.
\<close>

definition parse_decimal :: "string \<Rightarrow> rat option" where
  "parse_decimal s =
     (let ip = takeWhile is_digit s;
          r1 = dropWhile is_digit s;
          fp = (case r1 of [] \<Rightarrow> [] | c # cs \<Rightarrow> if c = CHR ''.'' then takeWhile is_digit cs else []);
          r2 = (case r1 of [] \<Rightarrow> [] | c # cs \<Rightarrow> if c = CHR ''.'' then dropWhile is_digit cs else r1)
      in if ip = [] \<and> fp = [] then None
         else (case parse_exponent r2 of
                 None \<Rightarrow> None
               | Some e \<Rightarrow> Some (of_nat (digits_val (ip @ fp)) * pow10 (e - int (length fp)))))"

text \<open>
  \<^verbatim>\<open>float(s)\<close> for a string \<open>s\<close>; \<open>None\<close> stands for \<^verbatim>\<open>ValueError\<close>. After the underscore
  check and the removal of underscores and surrounding whitespace, the text is an
  optional sign followed by \<^verbatim>\<open>inf\<close>, \<^verbatim>\<open>infinity\<close> or \<^verbatim>\<open>nan\<close> in any letter case, or by a
  decimal number.
\<close>

definition py_float :: "string \<Rightarrow> pyfloat option" where
  "py_float s =
     (if \<not> underscores_ok (CHR 0x00) s then None
      else
        let t = filter (\<lambda>c. c \<noteq> CHR ''_'') s;
            u = rev (dropWhile (float_space s) (rev (dropWhile (float_space s) t)))
        in case take_sign u of (neg, body) \<Rightarrow>
             if map to_lower body = ''inf'' \<or> map to_lower body = ''infinity'' then Some (Infinity neg)
             else if map to_lower body = ''nan'' then Some NaN
             else (case parse_decimal body of
                     None \<Rightarrow> None
                   | Some q \<Rightarrow> Some (to_binary64 neg q)))"

subsection \<open>The coordinate parser\<close>

text \<open>
  One turn of the loop of \<^verbatim>\<open>parse_coordinates\<close>: the token is split at commas, empty
  fields are dropped, and with at least two fields left the first two are converted with
  \<^verbatim>\<open>float\<close>; the pair is appended unless a conversion raises \<^verbatim>\<open>ValueError\<close>.
\<close>

definition coords_step :: "(pyfloat \<times> pyfloat) list \<Rightarrow> string \<Rightarrow> (pyfloat \<times> pyfloat) list" where
  "coords_step coords part =
     (let parts = filter (\<lambda>p. p \<noteq> []) (split_on (CHR '','') part)
      in if 2 \<le> length parts
         then (case py_float (parts ! 0) of
                 None \<Rightarrow> coords
               | Some lon \<Rightarrow>
                   (case py_float (parts ! 1) of
                      None \<Rightarrow> coords
                    | Some lat \<Rightarrow> coords @ [(lon, lat)]))
         else coords)"

text \<open>
  \<^verbatim>\<open>parse_coordinates(text)\<close>; the argument is \<open>None\<close> when the element has no text.
\<close>

definition parse_coordinates :: "string option \<Rightarrow> (pyfloat \<times> pyfloat) list" where
  "parse_coordinates text =
     (case text of
        None \<Rightarrow> []
      | Some t \<Rightarrow> if t = [] then [] else foldl coords_step [] (split_ws (strip t)))"

subsection \<open>Element trees\<close>

text \<open>
  An \<^verbatim>\<open>xml.etree.ElementTree.Element\<close>: the tag (namespace-qualified, in the form
  \<^verbatim>\<open>{uri}local\<close>), the attribute dictionary, the text before the first child (\<open>None\<close>
  when there is none) and the children in document order. The tail text is not read by
  the script and is left out.
\<close>

datatype element =
  Element (tag: string) (attrib: "(string \<times> string) list") (etext: "string option")
    (children: "element list")

text \<open>\<^verbatim>\<open>el.find(t)\<close> and \<^verbatim>\<open>el.findall(t)\<close> for a plain tag: the children with that tag.\<close>

definition find_child :: "element \<Rightarrow> string \<Rightarrow> element option" where
  "find_child el t = List.find (\<lambda>e. tag e = t) (children el)"

definition findall_children :: "element \<Rightarrow> string \<Rightarrow> element list" where
  "findall_children el t = filter (\<lambda>e. tag e = t) (children el)"

text \<open>\<^verbatim>\<open>el.iter()\<close>: the element and everything below it, parents before children.\<close>

fun iter :: "element \<Rightarrow> element list" where
  "iter (Element t a x cs) = Element t a x cs # concat (map iter cs)"

text \<open>
  \<^verbatim>\<open>el.find('.//' + t)\<close> and \<^verbatim>\<open>el.findall('.//' + t)\<close>: the path selects, from the
  traversal of \<^verbatim>\<open>el.iter(t)\<close>, every element other than \<^verbatim>\<open>el\<close> itself.
\<close>

definition descendants :: "element \<Rightarrow> element list" where
  "descendants el = concat (map iter (children el))"

definition find_descendant :: "element \<Rightarrow> string \<Rightarrow> element option" where
  "find_descendant el t = List.find (\<lambda>e. tag e = t) (descendants el)"

definition findall_descendants :: "element \<Rightarrow> string \<Rightarrow> element list" where
  "findall_descendants el t = filter (\<lambda>e. tag e = t) (descendants el)"

text \<open>\<^verbatim>\<open>data.get(k)\<close> on the attribute dictionary.\<close>

definition get_attr :: "element \<Rightarrow> string \<Rightarrow> string option" where
  "get_attr el k = map_of (attrib el) k"

subsection \<open>Dictionaries\<close>

text \<open>
  A Python \<^verbatim>\<open>dict\<close> keeps its keys in insertion order; \<^verbatim>\<open>d[k] = v\<close> replaces the value
  of a key already there, in place, and appends a new key otherwise.
\<close>

fun dict_set :: "('k \<times> 'v) list \<Rightarrow> 'k \<Rightarrow> 'v \<Rightarrow> ('k \<times> 'v) list" where
  "dict_set [] k v = [(k, v)]"
| "dict_set ((k', v') # d) k v =
     (if k' = k then (k', v) # d else (k', v') # dict_set d k v)"

subsection \<open>The placemark mapper\<close>

definition KML_NS :: string where
  "KML_NS = ''{http://www.opengis.net/kml/2.2}''"

type_synonym position = "pyfloat \<times> pyfloat"

text \<open>The geometry dictionaries the script builds, by their \<^verbatim>\<open>type\<close> key.\<close>

datatype geometry =
  Point position
| LineString "position list"
| Polygon "position list list"

text \<open>A feature dictionary; its \<^verbatim>\<open>type\<close> key always holds \<^verbatim>\<open>Feature\<close>.\<close>

record feature =
  properties :: "(string \<times> string) list"
  geometry :: geometry

text \<open>
  The value of \<^verbatim>\<open>el.text.strip()\<close> under the guard \<^verbatim>\<open>el is not None and el.text\<close>, and
  \<open>None\<close> when the guard fails (no element, no text, or the empty text).
\<close>

definition stripped_text :: "element option \<Rightarrow> string option" where
  "stripped_text el =
     (case el of
        None \<Rightarrow> None
      | Some e \<Rightarrow> (case etext e of
                     None \<Rightarrow> None
                   | Some t \<Rightarrow> if t = [] then None else Some (strip t)))"

text \<open>Lines 34 to 43: the three text properties.\<close>

definition base_props :: "element \<Rightarrow> (string \<times> string) list" where
  "base_props pm =
     (let name_el = find_child pm (KML_NS @ ''name'');
          desc_el = find_child pm (KML_NS @ ''description'');
          style_el = find_child pm (KML_NS @ ''styleUrl'');
          props0 = [];
          props1 = (case stripped_text name_el of
                      None \<Rightarrow> props0 | Some v \<Rightarrow> dict_set props0 ''name'' v);
          props2 = (case stripped_text desc_el of
                      None \<Rightarrow> props1 | Some v \<Rightarrow> dict_set props1 ''description'' v);
          props3 = (case stripped_text style_el of
                      None \<Rightarrow> props2 | Some v \<Rightarrow> dict_set props2 ''styleUrl'' v)
      in props3)"

text \<open>
  Lines 48 to 51, one turn of the loop over the \<^verbatim>\<open>Data\<close> children: the entry is stored
  when \<^verbatim>\<open>key\<close> is truthy, that is neither \<^verbatim>\<open>None\<close> nor the empty string.
\<close>

definition data_step :: "(string \<times> string) list \<Rightarrow> element \<Rightarrow> (string \<times> string) list" where
  "data_step props data =
     (let key = get_attr data ''name'';
          value_el = find_child data (KML_NS @ ''value'')
      in case key of
           None \<Rightarrow> props
         | Some k \<Rightarrow>
             if k = [] then props
             else dict_set props k (case stripped_text value_el of None \<Rightarrow> [] | Some v \<Rightarrow> v))"

text \<open>Lines 45 to 51: the entries of the first \<^verbatim>\<open>ExtendedData\<close> child.\<close>

definition extended_data :: "element \<Rightarrow> (string \<times> string) list \<Rightarrow> (string \<times> string) list" where
  "extended_data pm props =
     (case find_child pm (KML_NS @ ''ExtendedData'') of
        None \<Rightarrow> props
      | Some ed \<Rightarrow> foldl data_step props (findall_children ed (KML_NS @ ''Data'')))"

definition placemark_props :: "element \<Rightarrow> (string \<times> string) list" where
  "placemark_props pm = extended_data pm (base_props pm)"

text \<open>
  The text handed to the parser for a Point or a LineString: that of the first
  \<^verbatim>\<open>coordinates\<close> child, and the empty string when there is no such child.
\<close>

definition coordinates_text :: "element \<Rightarrow> string option" where
  "coordinates_text g =
     (case find_child g (KML_NS @ ''coordinates'') of
        None \<Rightarrow> Some []
      | Some c \<Rightarrow> etext c)"

text \<open>
  The three geometry blocks of \<^verbatim>\<open>placemark_to_feature\<close>. Each one either returns a
  feature (\<open>Some\<close>) or lets control fall through to the next block (\<open>None\<close>).
\<close>

definition point_block :: "(string \<times> string) list \<Rightarrow> element \<Rightarrow> feature option" where
  "point_block props pm =
     (case find_descendant pm (KML_NS @ ''Point'') of
        None \<Rightarrow> None
      | Some point \<Rightarrow>
          (case parse_coordinates (coordinates_text point) of
             [] \<Rightarrow> None
           | c # cs \<Rightarrow> Some \<lparr>properties = props, geometry = Point c\<rparr>))"

definition linestring_block :: "(string \<times> string) list \<Rightarrow> element \<Rightarrow> feature option" where
  "linestring_block props pm =
     (case find_descendant pm (KML_NS @ ''LineString'') of
        None \<Rightarrow> None
      | Some linestring \<Rightarrow>
          (let coords = parse_coordinates (coordinates_text linestring)
           in if coords \<noteq> []
              then Some \<lparr>properties = props, geometry = LineString coords\<rparr>
              else None))"

definition polygon_block :: "(string \<times> string) list \<Rightarrow> element \<Rightarrow> feature option" where
  "polygon_block props pm =
     (case find_descendant pm (KML_NS @ ''Polygon'') of
        None \<Rightarrow> None
      | Some polygon \<Rightarrow>
          (case find_descendant polygon (KML_NS @ ''outerBoundaryIs'') of
             None \<Rightarrow> None
           | Some outer \<Rightarrow>
               (let coords_el = find_descendant outer (KML_NS @ ''coordinates'');
                    coords = parse_coordinates
                               (case coords_el of None \<Rightarrow> Some [] | Some c \<Rightarrow> etext c)
                in if coords \<noteq> []
                   then Some \<lparr>properties = props, geometry = Polygon [coords]\<rparr>
                   else None)))"

text \<open>\<^verbatim>\<open>placemark_to_feature(pm)\<close>; \<open>None\<close> is the Python \<^verbatim>\<open>None\<close> of the last line.\<close>

definition placemark_to_feature :: "element \<Rightarrow> feature option" where
  "placemark_to_feature pm =
     (let props = placemark_props pm
      in case point_block props pm of
           Some feat \<Rightarrow> Some feat
         | None \<Rightarrow>
             (case linestring_block props pm of
                Some feat \<Rightarrow> Some feat
              | None \<Rightarrow> polygon_block props pm))"

subsection \<open>The document walker\<close>

text \<open>Lines 95 to 97, one turn of the loop over the placemarks.\<close>

definition collect_step :: "feature list \<Rightarrow> element \<Rightarrow> feature list" where
  "collect_step features pm =
     (case placemark_to_feature pm of
        None \<Rightarrow> features
      | Some feat \<Rightarrow> features @ [feat])"

text \<open>Lines 92 to 97: the feature list built from the root element.\<close>

definition collect_features :: "element \<Rightarrow> feature list" where
  "collect_features doc_root =
     foldl collect_step [] (findall_descendants doc_root (KML_NS @ ''Placemark''))"

text \<open>
  The file system as \<^verbatim>\<open>convert\<close> meets it: the contents of the files, the paths that can
  be opened and read, and the paths that can be opened for writing and written.
\<close>

record filesystem =
  files :: "string \<rightharpoonup> string"
  can_read :: "string \<Rightarrow> bool"
  can_write :: "string \<Rightarrow> bool"

text \<open>
  The exceptions that leave \<^verbatim>\<open>convert\<close>: the \<^verbatim>\<open>OSError\<close> of \<^verbatim>\<open>ET.parse\<close> when the input
  path cannot be opened or read (\<^verbatim>\<open>FileNotFoundError\<close> among them), its \<^verbatim>\<open>ParseError\<close>
  when the document is not well-formed, and the \<^verbatim>\<open>OSError\<close> of line 99 or 100 when the
  output path cannot be opened or written.
\<close>

datatype error = InputOSError | ParseError | OutputOSError

text \<open>
  \<^verbatim>\<open>convert(in_path, out_path)\<close>. The XML parser and the JSON printer belong to the
  Python library and are parameters: \<open>xml_parse\<close> gives the root element of a well-formed
  document and \<open>None\<close> otherwise, \<open>json_dump\<close> prints the collection
  \<^verbatim>\<open>{'type': 'FeatureCollection', 'features': features}\<close>. The function returns the count,
  here together with the file system after the output file is written, or raises; after
  an exception nothing is returned.
\<close>

definition convert ::
  "(string \<Rightarrow> element option) \<Rightarrow> (feature list \<Rightarrow> string) \<Rightarrow>
   filesystem \<Rightarrow> string \<Rightarrow> string \<Rightarrow> error + nat \<times> filesystem" where
  "convert xml_parse json_dump fs in_path out_path =
     (case (if can_read fs in_path then files fs in_path else None) of
        None \<Rightarrow> Inl InputOSError
      | Some doc \<Rightarrow>
          (case xml_parse doc of
             None \<Rightarrow> Inl ParseError
           | Some doc_root \<Rightarrow>
               (let features = collect_features doc_root
                in if can_write fs out_path
                   then Inr (length features,
                             fs\<lparr>files := (files fs)(out_path \<mapsto> json_dump features)\<rparr>)
                   else Inl OutputOSError)))"

subsection \<open>Notions used to state the properties\<close>

text \<open>
  The position of an element in a tree is the list of child indices leading to it from
  the root; the root is at the empty position.
\<close>

fun subtree_at :: "element \<Rightarrow> nat list \<Rightarrow> element option" where
  "subtree_at e [] = Some e"
| "subtree_at e (i # p) =
     (if i < length (children e) then subtree_at (children e ! i) p else None)"

text \<open>
  Document order on positions: an element comes before everything below it, and the
  subtree of a child comes before the subtrees of the children after it.
\<close>

fun doc_before :: "nat list \<Rightarrow> nat list \<Rightarrow> bool" where
  "doc_before [] [] = False"
| "doc_before [] (j # q) = True"
| "doc_before (i # p) [] = False"
| "doc_before (i # p) (j # q) = (i < j \<or> (i = j \<and> doc_before p q))"

text \<open>
  The positions of a tree, listed parents first and children from left to right;
  \<open>positions_from i cs\<close> lists those below the children \<open>cs\<close>, the first of which has
  index \<open>i\<close>.
\<close>

fun positions :: "element \<Rightarrow> nat list list"
  and positions_from :: "nat \<Rightarrow> element list \<Rightarrow> nat list list" where
  "positions (Element t a x cs) = [] # positions_from 0 cs"
| "positions_from i [] = []"
| "positions_from i (c # cs) = map ((#) i) (positions c) @ positions_from (Suc i) cs"

text \<open>
  The coordinate sequence each geometry search yields for a placemark: the parsed
  coordinates of the element the search finds, and the empty sequence when the search
  finds nothing.
\<close>

definition point_coords :: "element \<Rightarrow> position list" where
  "point_coords pm =
     (case find_descendant pm (KML_NS @ ''Point'') of
        None \<Rightarrow> []
      | Some point \<Rightarrow> parse_coordinates (coordinates_text point))"

definition linestring_coords :: "element \<Rightarrow> position list" where
  "linestring_coords pm =
     (case find_descendant pm (KML_NS @ ''LineString'') of
        None \<Rightarrow> []
      | Some linestring \<Rightarrow> parse_coordinates (coordinates_text linestring))"

definition polygon_coords :: "element \<Rightarrow> position list" where
  "polygon_coords pm =
     (case find_descendant pm (KML_NS @ ''Polygon'') of
        None \<Rightarrow> []
      | Some polygon \<Rightarrow>
          (case find_descendant polygon (KML_NS @ ''outerBoundaryIs'') of
             None \<Rightarrow> []
           | Some outer \<Rightarrow>
               (case find_descendant outer (KML_NS @ ''coordinates'') of
                  None \<Rightarrow> []
                | Some c \<Rightarrow> parse_coordinates (etext c))))"

text \<open>The non-empty comma-separated sub-fields of a token.\<close>

definition token_fields :: "string \<Rightarrow> string list" where
  "token_fields tok = filter (\<lambda>p. p \<noteq> []) (split_on (CHR '','') tok)"

text \<open>
  A token is accepted when it has at least two sub-fields and \<^verbatim>\<open>float\<close> converts the
  first two.
\<close>

definition token_accepted :: "string \<Rightarrow> bool" where
  "token_accepted tok =
     (case token_fields tok of
        f0 # f1 # rest \<Rightarrow> py_float f0 \<noteq> None \<and> py_float f1 \<noteq> None
      | _ \<Rightarrow> False)"

text \<open>The stricter reading: the first two sub-fields convert to finite numbers.\<close>

definition token_finite :: "string \<Rightarrow> bool" where
  "token_finite tok =
     (case token_fields tok of
        f0 # f1 # rest \<Rightarrow>
          (case py_float f0 of
             None \<Rightarrow> False
           | Some lon \<Rightarrow>
               (case py_float f1 of
                  None \<Rightarrow> False
                | Some lat \<Rightarrow> is_finite lon \<and> is_finite lat))
      | _ \<Rightarrow> False)"

text \<open>The number of positions a geometry holds.\<close>

fun position_count :: "geometry \<Rightarrow> nat" where
  "position_count (Point c) = 1"
| "position_count (LineString cs) = length cs"
| "position_count (Polygon rings) = sum_list (map length rings)"

subsection \<open>Example documents\<close>

text \<open>An element of the KML namespace.\<close>

definition kml :: "string \<Rightarrow> (string \<times> string) list \<Rightarrow> string option \<Rightarrow> element list \<Rightarrow> element" where
  "kml local attrs txt cs = Element (KML_NS @ local) attrs txt cs"

text \<open>A placemark named \<^verbatim>\<open>A\<close> with a point.\<close>

definition point_pm :: element where
  "point_pm =
     kml ''Placemark'' [] None
       [kml ''name'' [] (Some ''A'') [],
        kml ''Point'' [] None [kml ''coordinates'' [] (Some ''1.0,2.0,0'') []]]"

text \<open>A placemark whose name is a single space.\<close>

definition blank_name_pm :: element where
  "blank_name_pm =
     kml ''Placemark'' [] None
       [kml ''name'' [] (Some '' '') [],
        kml ''Point'' [] None [kml ''coordinates'' [] (Some ''1,2'') []]]"

text \<open>A placemark with a point that has no coordinates, and a line.\<close>

definition empty_point_pm :: element where
  "empty_point_pm =
     kml ''Placemark'' [] None
       [kml ''Point'' [] None [],
        kml ''LineString'' [] None [kml ''coordinates'' [] (Some ''0,0 1,1'') []]]"

text \<open>A placemark with a point and a line, both with coordinates.\<close>

definition point_and_line_pm :: element where
  "point_and_line_pm =
     kml ''Placemark'' [] None
       [kml ''LineString'' [] None [kml ''coordinates'' [] (Some ''0,0 1,1'') []],
        kml ''Point'' [] None [kml ''coordinates'' [] (Some ''1,2 3,4'') []]]"

text \<open>
  A placemark with a polygon whose \<^verbatim>\<open>coordinates\<close> element lies two levels below
  \<^verbatim>\<open>outerBoundaryIs\<close>, and not in a \<^verbatim>\<open>LinearRing\<close>.
\<close>

definition polygon_pm :: element where
  "polygon_pm =
     kml ''Placemark'' [] None
       [kml ''Polygon'' [] None
          [kml ''outerBoundaryIs'' [] None
             [kml ''Folder'' [] None
                [kml ''coordinates'' [] (Some ''0,0 1,0 1,1 0,0'') []]]]]"

text \<open>A named placemark with two data entries, the first under the empty name.\<close>

definition data_pm :: element where
  "data_pm =
     kml ''Placemark'' [] None
       [kml ''name'' [] (Some '' Stop 1 '') [],
        kml ''ExtendedData'' [] None
          [kml ''Data'' [(''name'', [])] None [kml ''value'' [] (Some ''x'') []],
           kml ''Data'' [(''name'', ''pop'')] None [kml ''value'' [] (Some ''42'') []]],
        kml ''Point'' [] None [kml ''coordinates'' [] (Some ''1,2'') []]]"

text \<open>A placemark with data and no geometry.\<close>

definition no_geometry_pm :: element where
  "no_geometry_pm =
     kml ''Placemark'' [] None
       [kml ''ExtendedData'' [] None
          [kml ''Data'' [(''name'', ''pop'')] None [kml ''value'' [] (Some ''42'') []]]]"

text \<open>A document with placemarks at three depths.\<close>

definition sample_doc :: element where
  "sample_doc =
     kml ''kml'' [] None
       [kml ''Document'' [] None
          [kml ''Folder'' [] None [kml ''Folder'' [] None [polygon_pm], no_geometry_pm],
           point_pm]]"

section \<open>Properties\<close>

subsection \<open>Loops as list functions\<close>

lemma coords_step_append: "coords_step acc tok = acc @ coords_step [] tok"
  by (simp add: coords_step_def Let_def split: option.splits)

lemma foldl_coords_step: "foldl coords_step acc toks = acc @ concat (map (coords_step []) toks)"
proof (induction toks arbitrary: acc)
  case Nil
  show ?case by simp
next
  case (Cons tok toks)
  have "foldl coords_step acc (tok # toks) = foldl coords_step (coords_step acc tok) toks"
    by simp
  also have "\<dots> = coords_step acc tok @ concat (map (coords_step []) toks)"
    by (rule Cons.IH)
  also have "\<dots> = acc @ coords_step [] tok @ concat (map (coords_step []) toks)"
    using coords_step_append [of acc tok] by simp
  finally show ?case by simp
qed

lemma split_ws_from_dropWhile:
  "split_ws_from [] (dropWhile is_space s) = split_ws_from [] s"
  by (induction s) auto

lemma split_ws_from_trailing:
  "list_all is_space ws \<Longrightarrow> split_ws_from cur (s @ ws) = split_ws_from cur s"
proof (induction s arbitrary: cur)
  case Nil
  then show ?case by (induction ws arbitrary: cur) auto
next
  case (Cons c s)
  then show ?case by simp
qed

lemma rev_dropWhile_rev:
  "s = rev (dropWhile P (rev s)) @ rev (takeWhile P (rev s))"
proof -
  have "rev (dropWhile P (rev s)) @ rev (takeWhile P (rev s)) =
        rev (takeWhile P (rev s) @ dropWhile P (rev s))"
    by (simp only: rev_append)
  also have "\<dots> = s"
    by (simp only: takeWhile_dropWhile_id rev_rev_ident)
  finally show ?thesis by simp
qed

lemma split_ws_strip: "split_ws (strip t) = split_ws t"
proof -
  let ?d = "dropWhile is_space t"
  have ws: "list_all is_space (rev (takeWhile is_space (rev ?d)))"
    by (simp add: list_all_iff) (meson set_takeWhileD)
  have "split_ws_from [] ?d = split_ws_from [] (strip t @ rev (takeWhile is_space (rev ?d)))"
    using rev_dropWhile_rev [of ?d is_space] by (simp add: strip_def)
  also have "\<dots> = split_ws_from [] (strip t)"
    using ws by (rule split_ws_from_trailing)
  finally show ?thesis
    by (simp add: split_ws_def split_ws_from_dropWhile)
qed

lemma split_ws_Nil: "split_ws [] = []"
  by (simp add: split_ws_def)

lemma parse_coordinates_tokens:
  "parse_coordinates (Some t) = concat (map (coords_step []) (split_ws t))"
  by (simp add: parse_coordinates_def foldl_coords_step split_ws_strip split_ws_Nil)

lemma parse_coordinates_None: "parse_coordinates None = []"
  by (simp add: parse_coordinates_def)

lemma collect_step_append:
  "foldl collect_step acc pms = acc @ List.map_filter placemark_to_feature pms"
  by (induction pms arbitrary: acc)
     (auto simp: collect_step_def split: option.splits)

lemma map_of_dict_set: "map_of (dict_set d k v) = (map_of d)(k \<mapsto> v)"
  by (induction d k v rule: dict_set.induct) (auto simp: fun_eq_iff)

lemma keys_dict_set: "fst ` set (dict_set d k v) = insert k (fst ` set d)"
  by (induction d k v rule: dict_set.induct) auto

subsection \<open>The strings that float accepts\<close>

lemma take_sign_set: "take_sign s = (neg, body) \<Longrightarrow> set s \<subseteq> insert CHR ''-'' (insert CHR ''+'' (set body))"
  by (cases s) (auto split: if_splits)

lemma parse_exponent_chars:
  assumes "parse_exponent r = Some e" and "c \<in> set r"
  shows "is_digit c \<or> c \<in> {CHR ''e'', CHR ''E'', CHR ''+'', CHR ''-''}"
proof (cases r)
  case Nil
  with assms show ?thesis by simp
next
  case (Cons d ds)
  obtain neg body where ts: "take_sign ds = (neg, body)" by (cases "take_sign ds")
  from assms(1) Cons ts have d: "d = CHR ''e'' \<or> d = CHR ''E''" and body: "list_all is_digit body"
    by (auto simp: parse_exponent_def split: if_splits)
  from assms(2) Cons have "c = d \<or> c \<in> set ds" by auto
  then show ?thesis
  proof
    assume "c = d"
    with d show ?thesis by auto
  next
    assume "c \<in> set ds"
    with take_sign_set [OF ts] have "c = CHR ''-'' \<or> c = CHR ''+'' \<or> c \<in> set body" by auto
    with body show ?thesis by (auto simp: list_all_iff)
  qed
qed

lemma parse_decimal_chars:
  assumes "parse_decimal s = Some q" and "c \<in> set s"
  shows "is_digit c \<or> c \<in> {CHR ''.'', CHR ''e'', CHR ''E'', CHR ''+'', CHR ''-''}"
proof -
  let ?ip = "takeWhile is_digit s" and ?r1 = "dropWhile is_digit s"
  have s: "s = ?ip @ ?r1" by simp
  have "c \<in> set ?ip \<or> c \<in> set ?r1"
    using assms(2) by (metis Un_iff s set_append)
  then show ?thesis
  proof
    assume "c \<in> set ?ip"
    then have "is_digit c" by (rule set_takeWhileD [THEN conjunct2])
    then show ?thesis by simp
  next
    assume c1: "c \<in> set ?r1"
    show ?thesis
    proof (cases ?r1)
      case Nil
      with c1 show ?thesis by simp
    next
      case (Cons d ds)
      show ?thesis
      proof (cases "d = CHR ''.''")
        case True
        let ?fp = "takeWhile is_digit ds" and ?r2 = "dropWhile is_digit ds"
        from assms(1) Cons True obtain e where e: "parse_exponent ?r2 = Some e"
          by (auto simp: parse_decimal_def Let_def split: if_splits option.splits)
        have "ds = ?fp @ ?r2" by simp
        then have "set ds = set ?fp \<union> set ?r2" by (metis set_append)
        with c1 Cons have "c = d \<or> c \<in> set ?fp \<or> c \<in> set ?r2" by auto
        then show ?thesis
        proof (elim disjE)
          assume "c = d" with True show ?thesis by simp
        next
          assume "c \<in> set ?fp"
          then have "is_digit c" by (rule set_takeWhileD [THEN conjunct2])
          then show ?thesis by simp
        next
          assume "c \<in> set ?r2"
          with parse_exponent_chars [OF e] show ?thesis by auto
        qed
      next
        case False
        from assms(1) Cons False obtain e where e: "parse_exponent ?r1 = Some e"
          by (auto simp: parse_decimal_def Let_def split: if_splits option.splits)
        with parse_exponent_chars [OF e c1] show ?thesis by auto
      qed
    qed
  qed
qed

lemma mem_dropWhile: "c \<in> set s \<Longrightarrow> \<not> P c \<Longrightarrow> c \<in> set (dropWhile P s)"
  by (induction s) auto

lemma mem_strip_like:
  "c \<in> set s \<Longrightarrow> \<not> P c \<Longrightarrow> c \<in> set (rev (dropWhile P (rev (dropWhile P s))))"
  by (simp add: mem_dropWhile)

lemma py_float_no_comma:
  assumes "py_float s = Some x"
  shows "CHR '','' \<notin> set s"
proof
  assume c: "CHR '','' \<in> set s"
  let ?t = "filter (\<lambda>c. c \<noteq> CHR ''_'') s"
  let ?u = "rev (dropWhile (float_space s) (rev (dropWhile (float_space s) ?t)))"
  obtain neg body where ts: "take_sign ?u = (neg, body)" by (cases "take_sign ?u")
  have "CHR '','' \<in> set ?t" using c by simp
  moreover have "\<not> float_space s (CHR '','')" by (simp add: float_space_def)
  ultimately have "CHR '','' \<in> set ?u" by (rule mem_strip_like)
  with take_sign_set [OF ts] have cb: "CHR '','' \<in> set body" by auto
  then have "to_lower (CHR '','') \<in> set (map to_lower body)" by force
  then have lc: "CHR '','' \<in> set (map to_lower body)" by (simp add: to_lower_def)
  have n1: "map to_lower body \<noteq> ''inf''" using lc by auto
  have n2: "map to_lower body \<noteq> ''infinity''" using lc by auto
  have n3: "map to_lower body \<noteq> ''nan''" using lc by auto
  from assms ts n1 n2 n3 obtain q where "parse_decimal body = Some q"
    by (auto simp: py_float_def Let_def split: if_splits option.splits)
  from parse_decimal_chars [OF this cb] show False
    by (simp add: is_digit_def)
qed

lemma py_float_nonempty:
  assumes "py_float s = Some x"
  shows "s \<noteq> []"
proof
  assume "s = []"
  with assms show False
    by (simp add: py_float_def parse_decimal_def)
qed

subsection \<open>The coordinate parser\<close>

lemma split_ws_from_token:
  "\<forall>c \<in> set s. \<not> is_space c \<Longrightarrow> split_ws_from cur s = (if cur @ s = [] then [] else [cur @ s])"
  by (induction s arbitrary: cur) auto

lemma split_ws_token:
  "s \<noteq> [] \<Longrightarrow> \<forall>c \<in> set s. \<not> is_space c \<Longrightarrow> split_ws s = [s]"
  by (simp add: split_ws_def split_ws_from_token)

lemma split_on_from_nosep:
  "sep \<notin> set a \<Longrightarrow> split_on_from sep cur a = [cur @ a]"
  by (induction a arbitrary: cur) auto

lemma split_on_from_field:
  "sep \<notin> set a \<Longrightarrow> split_on_from sep cur (a @ sep # rest) = (cur @ a) # split_on_from sep [] rest"
  by (induction a arbitrary: cur) auto

lemma token_fields_two:
  assumes "CHR '','' \<notin> set a" "CHR '','' \<notin> set b" "a \<noteq> []" "b \<noteq> []"
  shows "token_fields (a @ '','' @ b) = [a, b]"
  using assms
  by (simp add: token_fields_def split_on_def split_on_from_field split_on_from_nosep)

lemma token_fields_more:
  assumes "CHR '','' \<notin> set a" "CHR '','' \<notin> set b" "a \<noteq> []" "b \<noteq> []"
  shows "token_fields (a @ '','' @ b @ '','' @ rest) = a # b # token_fields rest"
  using assms
  by (simp add: token_fields_def split_on_def split_on_from_field)

lemma coords_step_fields:
  "coords_step [] tok =
     (case token_fields tok of
        f0 # f1 # rest \<Rightarrow>
          (case py_float f0 of
             None \<Rightarrow> []
           | Some lon \<Rightarrow> (case py_float f1 of None \<Rightarrow> [] | Some lat \<Rightarrow> [(lon, lat)]))
      | _ \<Rightarrow> [])"
proof (cases "token_fields tok")
  case Nil
  then show ?thesis by (simp add: coords_step_def token_fields_def)
next
  case (Cons f0 fs)
  then show ?thesis
    by (cases fs) (simp_all add: coords_step_def token_fields_def nth_Cons' split: option.splits)
qed

text \<open>
  Claim C3, as the code has it. The parsed sequence is the concatenation, in input order,
  of what each whitespace-separated token contributes on its own. A token contributes a
  pair exactly when it has at least two non-empty comma-separated sub-fields and
  \<^verbatim>\<open>float\<close> converts the first two; the pair then holds the two converted values, and
  any other token contributes nothing. The converted values need not be finite.
\<close>

theorem parse_coordinates_per_token:
  "parse_coordinates (Some t) = concat (map (coords_step []) (split_ws t)) \<and>
   (\<forall>tok. (coords_step [] tok \<noteq> [] \<longleftrightarrow> token_accepted tok) \<and>
          (\<forall>f0 f1 rest lon lat.
              token_fields tok = f0 # f1 # rest \<and> py_float f0 = Some lon \<and> py_float f1 = Some lat
              \<longrightarrow> coords_step [] tok = [(lon, lat)]))"
proof (intro conjI allI impI)
  show "parse_coordinates (Some t) = concat (map (coords_step []) (split_ws t))"
    by (rule parse_coordinates_tokens)
next
  fix tok
  show "coords_step [] tok \<noteq> [] \<longleftrightarrow> token_accepted tok"
    by (simp add: coords_step_fields token_accepted_def split: list.splits option.splits)
next
  fix tok f0 f1 rest lon lat
  assume "token_fields tok = f0 # f1 # rest \<and> py_float f0 = Some lon \<and> py_float f1 = Some lat"
  then show "coords_step [] tok = [(lon, lat)]"
    by (simp add: coords_step_fields)
qed

theorem parse_coordinates_per_token_witness:
  "parse_coordinates (Some ''1,2 x,3 4,5,6 7'') =
     [(Finite False 1, Finite False 2), (Finite False 4, Finite False 5)] \<and>
   token_accepted ''1,2'' \<and> \<not> token_accepted ''x,3'' \<and> token_accepted ''4,5,6'' \<and>
   \<not> token_accepted ''7''"
proof -
  have tokens: "split_ws ''1,2 x,3 4,5,6 7'' = [''1,2'', ''x,3'', ''4,5,6'', ''7'']"
    by code_simp
  have s1: "coords_step [] ''1,2'' = [(Finite False 1, Finite False 2)]" by code_simp
  have s2: "coords_step [] ''x,3'' = []" by code_simp
  have s3: "coords_step [] ''4,5,6'' = [(Finite False 4, Finite False 5)]" by code_simp
  have s4: "coords_step [] ''7'' = []" by code_simp
  note inst = parse_coordinates_per_token [of "''1,2 x,3 4,5,6 7''"]
  from inst have "parse_coordinates (Some ''1,2 x,3 4,5,6 7'') =
      concat (map (coords_step []) (split_ws ''1,2 x,3 4,5,6 7''))" by (rule conjunct1)
  then have p: "parse_coordinates (Some ''1,2 x,3 4,5,6 7'') =
      [(Finite False 1, Finite False 2), (Finite False 4, Finite False 5)]"
    by (simp only: tokens list.map concat.simps s1 s2 s3 s4 append.simps)
  from inst have acc: "\<And>tok. coords_step [] tok \<noteq> [] \<longleftrightarrow> token_accepted tok" by blast
  have "token_accepted ''1,2''" using acc [of "''1,2''"] s1 by simp
  moreover have "\<not> token_accepted ''x,3''" using acc [of "''x,3''"] s2 by simp
  moreover have "token_accepted ''4,5,6''" using acc [of "''4,5,6''"] s3 by simp
  moreover have "\<not> token_accepted ''7''" using acc [of "''7''"] s4 by simp
  ultimately show ?thesis using p by blast
qed

text \<open>
  Claim C3 as stated fails: the token \<^verbatim>\<open>inf,nan\<close> contributes a pair although its fields
  are not finite numbers.
\<close>

theorem finite_token_counterexample:
  "parse_coordinates (Some ''inf,nan'') = [(Infinity False, NaN)] \<and> \<not> token_finite ''inf,nan''"
  by code_simp

text \<open>
  Claim C5. For sub-fields \<open>lon\<close> and \<open>lat\<close> that \<^verbatim>\<open>float\<close> converts and any further text
  \<open>alt\<close> (which may be empty or hold more commas), none of them containing whitespace,
  the token \<^verbatim>\<open>lon,lat,alt\<close> parses to the same single pair as the token \<^verbatim>\<open>lon,lat\<close>.
\<close>

theorem altitude_ignored:
  assumes lon: "py_float lon = Some x" and lat: "py_float lat = Some y"
    and ws: "\<forall>c \<in> set (lon @ lat @ alt). \<not> is_space c"
  shows "parse_coordinates (Some (lon @ '','' @ lat @ '','' @ alt)) = [(x, y)] \<and>
         parse_coordinates (Some (lon @ '','' @ lat)) = [(x, y)]"
proof -
  note nc = py_float_no_comma [OF lon] py_float_no_comma [OF lat]
  note ne = py_float_nonempty [OF lon] py_float_nonempty [OF lat]
  have sp: "\<not> is_space (CHR '','')" by (simp add: is_space_def)
  have t3: "split_ws (lon @ '','' @ lat @ '','' @ alt) = [lon @ '','' @ lat @ '','' @ alt]"
    using ws sp ne by (intro split_ws_token) auto
  have t2: "split_ws (lon @ '','' @ lat) = [lon @ '','' @ lat]"
    using ws sp ne by (intro split_ws_token) auto
  have f3: "token_fields (lon @ '','' @ lat @ '','' @ alt) = lon # lat # token_fields alt"
    using nc ne by (rule token_fields_more)
  have f2: "token_fields (lon @ '','' @ lat) = [lon, lat]"
    using nc ne by (rule token_fields_two)
  have c3: "coords_step [] (lon @ '','' @ lat @ '','' @ alt) = [(x, y)]"
    by (simp only: coords_step_fields f3 lon lat list.case option.case)
  have c2: "coords_step [] (lon @ '','' @ lat) = [(x, y)]"
    by (simp only: coords_step_fields f2 lon lat list.case option.case)
  have one: "concat (map (coords_step []) [tok]) = coords_step [] tok" for tok
    by simp
  have "parse_coordinates (Some (lon @ '','' @ lat @ '','' @ alt)) = [(x, y)]"
    by (simp only: parse_coordinates_tokens t3 one c3)
  moreover have "parse_coordinates (Some (lon @ '','' @ lat)) = [(x, y)]"
    by (simp only: parse_coordinates_tokens t2 one c2)
  ultimately show ?thesis by (rule conjI)
qed

theorem altitude_ignored_witness:
  "parse_coordinates (Some ''1.0,2.0,0'') = [(Finite False 1, Finite False 2)] \<and>
   parse_coordinates (Some ''1.0,2.0'') = [(Finite False 1, Finite False 2)]"
proof -
  have lon: "py_float ''1.0'' = Some (Finite False 1)" by code_simp
  have lat: "py_float ''2.0'' = Some (Finite False 2)" by code_simp
  have ws: "\<forall>c \<in> set (''1.0'' @ ''2.0'' @ ''0''). \<not> is_space c" by code_simp
  from altitude_ignored [OF lon lat ws] show ?thesis by simp
qed

subsection \<open>The geometry blocks\<close>

lemma parse_coordinates_empty: "parse_coordinates (Some []) = []"
  by (simp add: parse_coordinates_def)

lemma point_block_coords:
  "point_block props pm =
     (case point_coords pm of
        [] \<Rightarrow> None
      | c # cs \<Rightarrow> Some \<lparr>properties = props, geometry = Point c\<rparr>)"
  by (simp add: point_block_def point_coords_def split: option.splits)

lemma linestring_block_coords:
  "linestring_block props pm =
     (if linestring_coords pm \<noteq> []
      then Some \<lparr>properties = props, geometry = LineString (linestring_coords pm)\<rparr>
      else None)"
  by (simp add: linestring_block_def linestring_coords_def Let_def split: option.splits)

lemma polygon_block_coords:
  "polygon_block props pm =
     (if polygon_coords pm \<noteq> []
      then Some \<lparr>properties = props, geometry = Polygon [polygon_coords pm]\<rparr>
      else None)"
  by (simp add: polygon_block_def polygon_coords_def Let_def parse_coordinates_empty
           split: option.splits)

lemma placemark_to_feature_coords:
  "placemark_to_feature pm =
     (case point_coords pm of
        c # cs \<Rightarrow> Some \<lparr>properties = placemark_props pm, geometry = Point c\<rparr>
      | [] \<Rightarrow>
          if linestring_coords pm \<noteq> []
          then Some \<lparr>properties = placemark_props pm,
                      geometry = LineString (linestring_coords pm)\<rparr>
          else if polygon_coords pm \<noteq> []
          then Some \<lparr>properties = placemark_props pm,
                      geometry = Polygon [polygon_coords pm]\<rparr>
          else None)"
  by (simp add: placemark_to_feature_def Let_def point_block_coords linestring_block_coords
        polygon_block_coords split: list.splits)

lemma placemark_to_feature_props:
  "placemark_to_feature pm = Some feat \<Longrightarrow> properties feat = placemark_props pm"
  by (auto simp: placemark_to_feature_coords split: list.splits if_splits)

lemma placemark_to_feature_count:
  "placemark_to_feature pm = Some feat \<Longrightarrow> 0 < position_count (geometry feat)"
  by (auto simp: placemark_to_feature_coords split: list.splits if_splits)

lemma collect_features_map_filter:
  "collect_features doc_root =
     List.map_filter placemark_to_feature (findall_descendants doc_root (KML_NS @ ''Placemark''))"
  by (simp add: collect_features_def collect_step_append)

lemma collect_features_member:
  "feat \<in> set (collect_features doc_root) \<Longrightarrow>
     \<exists>pm \<in> set (findall_descendants doc_root (KML_NS @ ''Placemark'')).
        placemark_to_feature pm = Some feat"
  by (auto simp: collect_features_map_filter List.map_filter_def)

text \<open>
  Claim C1. The mapper returns a feature exactly when one of the three geometry searches
  yields a non-empty parsed coordinate sequence; every feature it returns holds at least
  one position; a placemark for which it returns nothing adds nothing to the feature
  list; and every feature of the collection built from a document holds at least one
  position.
\<close>

theorem features_have_coordinates:
  "(placemark_to_feature pm \<noteq> None \<longleftrightarrow>
      point_coords pm \<noteq> [] \<or> linestring_coords pm \<noteq> [] \<or> polygon_coords pm \<noteq> []) \<and>
   (\<forall>feat. placemark_to_feature pm = Some feat \<longrightarrow> 0 < position_count (geometry feat)) \<and>
   (placemark_to_feature pm = None \<longrightarrow> collect_step features pm = features) \<and>
   (\<forall>feat \<in> set (collect_features doc_root). 0 < position_count (geometry feat))"
proof (intro conjI allI impI ballI)
  show "placemark_to_feature pm \<noteq> None \<longleftrightarrow>
      point_coords pm \<noteq> [] \<or> linestring_coords pm \<noteq> [] \<or> polygon_coords pm \<noteq> []"
    by (simp add: placemark_to_feature_coords split: list.splits)
next
  fix feat assume "placemark_to_feature pm = Some feat"
  then show "0 < position_count (geometry feat)" by (rule placemark_to_feature_count)
next
  assume "placemark_to_feature pm = None"
  then show "collect_step features pm = features" by (simp add: collect_step_def)
next
  fix feat assume "feat \<in> set (collect_features doc_root)"
  then obtain p where "placemark_to_feature p = Some feat"
    using collect_features_member by blast
  then show "0 < position_count (geometry feat)" by (rule placemark_to_feature_count)
qed

text \<open>
  Claim C4, as the code has it. The geometry is decided by the probe order Point,
  LineString, Polygon: the first search that yields a non-empty parsed sequence wins. A
  placemark holding both a Point and a LineString gives a Point feature when the
  coordinates of its first Point parse to a non-empty sequence.
\<close>

theorem geometry_priority:
  "placemark_to_feature pm =
     (case point_coords pm of
        c # cs \<Rightarrow> Some \<lparr>properties = placemark_props pm, geometry = Point c\<rparr>
      | [] \<Rightarrow>
          if linestring_coords pm \<noteq> []
          then Some \<lparr>properties = placemark_props pm,
                      geometry = LineString (linestring_coords pm)\<rparr>
          else if polygon_coords pm \<noteq> []
          then Some \<lparr>properties = placemark_props pm,
                      geometry = Polygon [polygon_coords pm]\<rparr>
          else None) \<and>
   (\<forall>pt ls c cs.
      find_descendant pm (KML_NS @ ''Point'') = Some pt \<and>
      find_descendant pm (KML_NS @ ''LineString'') = Some ls \<and>
      parse_coordinates (coordinates_text pt) = c # cs
      \<longrightarrow> placemark_to_feature pm =
            Some \<lparr>properties = placemark_props pm, geometry = Point c\<rparr>)"
proof (intro conjI allI impI)
  show "placemark_to_feature pm =
     (case point_coords pm of
        c # cs \<Rightarrow> Some \<lparr>properties = placemark_props pm, geometry = Point c\<rparr>
      | [] \<Rightarrow>
          if linestring_coords pm \<noteq> []
          then Some \<lparr>properties = placemark_props pm,
                      geometry = LineString (linestring_coords pm)\<rparr>
          else if polygon_coords pm \<noteq> []
          then Some \<lparr>properties = placemark_props pm,
                      geometry = Polygon [polygon_coords pm]\<rparr>
          else None)"
    by (rule placemark_to_feature_coords)
next
  fix pt ls c cs
  assume "find_descendant pm (KML_NS @ ''Point'') = Some pt \<and>
      find_descendant pm (KML_NS @ ''LineString'') = Some ls \<and>
      parse_coordinates (coordinates_text pt) = c # cs"
  then have "point_coords pm = c # cs" by (simp add: point_coords_def)
  then show "placemark_to_feature pm =
            Some \<lparr>properties = placemark_props pm, geometry = Point c\<rparr>"
    by (simp add: placemark_to_feature_coords)
qed

text \<open>
  Claim C6. When the coordinates of the first descendant Point parse to a non-empty
  sequence, the feature has the Point geometry holding the first pair only. A Point
  without a \<^verbatim>\<open>coordinates\<close> child is read as the empty text, and the Point block then
  returns nothing.
\<close>

theorem point_feature:
  assumes "find_descendant pm (KML_NS @ ''Point'') = Some pt"
  shows "(\<forall>c cs. parse_coordinates (coordinates_text pt) = c # cs \<longrightarrow>
            placemark_to_feature pm =
              Some \<lparr>properties = placemark_props pm, geometry = Point c\<rparr>) \<and>
         (find_child pt (KML_NS @ ''coordinates'') = None \<longrightarrow>
            coordinates_text pt = Some [] \<and> point_block props pm = None)"
proof (intro conjI allI impI)
  fix c cs assume "parse_coordinates (coordinates_text pt) = c # cs"
  with assms have "point_coords pm = c # cs" by (simp add: point_coords_def)
  then show "placemark_to_feature pm =
              Some \<lparr>properties = placemark_props pm, geometry = Point c\<rparr>"
    by (simp add: placemark_to_feature_coords)
next
  assume "find_child pt (KML_NS @ ''coordinates'') = None"
  then show "coordinates_text pt = Some []" by (simp add: coordinates_text_def)
next
  assume "find_child pt (KML_NS @ ''coordinates'') = None"
  then have "coordinates_text pt = Some []" by (simp add: coordinates_text_def)
  with assms show "point_block props pm = None"
    by (simp add: point_block_def parse_coordinates_empty)
qed

text \<open>
  Claim C7. A feature with a Polygon geometry has exactly one ring: the parsed text of the
  first \<^verbatim>\<open>coordinates\<close> element anywhere below the first \<^verbatim>\<open>outerBoundaryIs\<close> element below
  the first Polygon element of the placemark, and that ring is not empty.
\<close>

theorem polygon_feature:
  assumes "placemark_to_feature pm = Some feat" and "geometry feat = Polygon rings"
  shows "\<exists>polygon outer ring.
           find_descendant pm (KML_NS @ ''Polygon'') = Some polygon \<and>
           find_descendant polygon (KML_NS @ ''outerBoundaryIs'') = Some outer \<and>
           ring = parse_coordinates
                    (case find_descendant outer (KML_NS @ ''coordinates'') of
                       None \<Rightarrow> Some []
                     | Some c \<Rightarrow> etext c) \<and>
           rings = [ring] \<and> ring \<noteq> []"
proof -
  from assms have ne: "polygon_coords pm \<noteq> []" and rings: "rings = [polygon_coords pm]"
    by (auto simp: placemark_to_feature_coords split: list.splits if_splits)
  from ne obtain polygon where p: "find_descendant pm (KML_NS @ ''Polygon'') = Some polygon"
    by (auto simp: polygon_coords_def split: option.splits)
  from ne p obtain outer where
    outer: "find_descendant polygon (KML_NS @ ''outerBoundaryIs'') = Some outer"
    by (auto simp: polygon_coords_def split: option.splits)
  have "polygon_coords pm = parse_coordinates
          (case find_descendant outer (KML_NS @ ''coordinates'') of
             None \<Rightarrow> Some [] | Some c \<Rightarrow> etext c)"
    using p outer by (simp add: polygon_coords_def parse_coordinates_empty split: option.splits)
  with p outer ne rings show ?thesis by auto
qed

subsection \<open>The properties\<close>

lemma map_of_opt_set:
  "map_of (case x of None \<Rightarrow> d | Some v \<Rightarrow> dict_set d k' v) k =
     (if k = k' \<and> x \<noteq> None then x else map_of d k)"
  by (cases x) (simp_all add: map_of_dict_set)

lemma base_props_map_of:
  "map_of (base_props pm) k =
     (if k = ''styleUrl'' \<and> stripped_text (find_child pm (KML_NS @ ''styleUrl'')) \<noteq> None
      then stripped_text (find_child pm (KML_NS @ ''styleUrl''))
      else if k = ''description'' \<and>
              stripped_text (find_child pm (KML_NS @ ''description'')) \<noteq> None
      then stripped_text (find_child pm (KML_NS @ ''description''))
      else if k = ''name'' \<and> stripped_text (find_child pm (KML_NS @ ''name'')) \<noteq> None
      then stripped_text (find_child pm (KML_NS @ ''name''))
      else None)"
  unfolding base_props_def Let_def map_of_opt_set by simp

lemma base_props_lookup:
  assumes "k \<in> {''name'', ''description'', ''styleUrl''}"
  shows "map_of (base_props pm) k = stripped_text (find_child pm (KML_NS @ k))"
proof -
  from assms consider "k = ''name''" | "k = ''description''" | "k = ''styleUrl''" by blast
  then show ?thesis
  proof cases
    case 1
    then show ?thesis by (simp add: base_props_map_of)
  next
    case 2
    then show ?thesis by (simp add: base_props_map_of)
  next
    case 3
    then show ?thesis by (simp add: base_props_map_of)
  qed
qed

lemma data_step_other:
  "get_attr d ''name'' \<noteq> Some k \<Longrightarrow> map_of (data_step props d) k = map_of props k"
  by (auto simp: data_step_def Let_def map_of_dict_set split: option.splits)

lemma foldl_data_step_other:
  "\<forall>d \<in> set ds. get_attr d ''name'' \<noteq> Some k \<Longrightarrow>
     map_of (foldl data_step props ds) k = map_of props k"
  by (induction ds arbitrary: props) (simp_all add: data_step_other)

lemma stripped_text_Some:
  "stripped_text el = Some v \<longleftrightarrow>
     (\<exists>e t. el = Some e \<and> etext e = Some t \<and> t \<noteq> [] \<and> v = strip t)"
  by (auto simp: stripped_text_def split: option.splits)

text \<open>
  Claim C2, as the code has it. For each of the keys \<^verbatim>\<open>name\<close>, \<^verbatim>\<open>description\<close> and
  \<^verbatim>\<open>styleUrl\<close>, the properties built from the text children hold the key exactly when the
  first child of that tag has a non-empty text, and the value is then that text trimmed
  (the empty string for a text of whitespace only). The same holds in the properties of
  the returned feature, provided no \<^verbatim>\<open>Data\<close> entry of the \<^verbatim>\<open>ExtendedData\<close> block is named by
  the key.
\<close>

theorem text_properties:
  assumes "k \<in> {''name'', ''description'', ''styleUrl''}"
  shows "map_of (base_props pm) k = stripped_text (find_child pm (KML_NS @ k)) \<and>
         (stripped_text (find_child pm (KML_NS @ k)) = Some v \<longleftrightarrow>
            (\<exists>e t. find_child pm (KML_NS @ k) = Some e \<and> etext e = Some t \<and> t \<noteq> [] \<and>
                   v = strip t)) \<and>
         ((\<forall>ed. find_child pm (KML_NS @ ''ExtendedData'') = Some ed \<longrightarrow>
              (\<forall>d \<in> set (findall_children ed (KML_NS @ ''Data'')).
                  get_attr d ''name'' \<noteq> Some k)) \<longrightarrow>
          (\<forall>feat. placemark_to_feature pm = Some feat \<longrightarrow>
              map_of (properties feat) k = stripped_text (find_child pm (KML_NS @ k))))"
proof (intro conjI allI impI)
  show "map_of (base_props pm) k = stripped_text (find_child pm (KML_NS @ k))"
    using assms by (rule base_props_lookup)
next
  show "stripped_text (find_child pm (KML_NS @ k)) = Some v \<longleftrightarrow>
            (\<exists>e t. find_child pm (KML_NS @ k) = Some e \<and> etext e = Some t \<and> t \<noteq> [] \<and>
                   v = strip t)"
    by (rule stripped_text_Some)
next
  fix feat
  assume nodata: "\<forall>ed. find_child pm (KML_NS @ ''ExtendedData'') = Some ed \<longrightarrow>
              (\<forall>d \<in> set (findall_children ed (KML_NS @ ''Data'')).
                  get_attr d ''name'' \<noteq> Some k)"
    and feat: "placemark_to_feature pm = Some feat"
  have "map_of (placemark_props pm) k = map_of (base_props pm) k"
  proof (cases "find_child pm (KML_NS @ ''ExtendedData'')")
    case None
    then show ?thesis by (simp add: placemark_props_def extended_data_def)
  next
    case (Some ed)
    with nodata have "\<forall>d \<in> set (findall_children ed (KML_NS @ ''Data'')).
        get_attr d ''name'' \<noteq> Some k" by simp
    then show ?thesis
      using Some by (simp add: placemark_props_def extended_data_def foldl_data_step_other)
  qed
  with placemark_to_feature_props [OF feat] base_props_lookup [OF assms]
  show "map_of (properties feat) k = stripped_text (find_child pm (KML_NS @ k))"
    by simp
qed

lemma base_props_keys:
  "fst ` set (base_props pm) \<subseteq> {''name'', ''description'', ''styleUrl''}"
  by (auto simp: base_props_def Let_def keys_dict_set split: option.splits)

lemma data_step_keys:
  "[] \<notin> fst ` set props \<Longrightarrow> [] \<notin> fst ` set (data_step props d)"
  by (auto simp: data_step_def Let_def keys_dict_set split: option.splits)

lemma foldl_data_step_keys:
  "[] \<notin> fst ` set props \<Longrightarrow> [] \<notin> fst ` set (foldl data_step props ds)"
  by (induction ds arbitrary: props) (simp_all add: data_step_keys)

lemma placemark_props_keys: "[] \<notin> fst ` set (placemark_props pm)"
proof -
  have "[] \<notin> fst ` set (base_props pm)"
    using base_props_keys [of pm] by auto
  then show ?thesis
    by (simp add: placemark_props_def extended_data_def foldl_data_step_keys
          split: option.splits)
qed

text \<open>
  Claim C10. A \<^verbatim>\<open>Data\<close> element whose \<^verbatim>\<open>name\<close> attribute is the empty string leaves the
  properties as they are, as does one without the attribute, and no feature has the
  empty string among its property keys.
\<close>

theorem empty_data_name_skipped:
  "(get_attr d ''name'' = Some [] \<longrightarrow> data_step props d = props) \<and>
   (get_attr d ''name'' = None \<longrightarrow> data_step props d = props) \<and>
   (\<forall>feat. placemark_to_feature pm = Some feat \<longrightarrow> [] \<notin> fst ` set (properties feat))"
proof (intro conjI allI impI)
  assume "get_attr d ''name'' = Some []"
  then show "data_step props d = props" by (simp add: data_step_def)
next
  assume "get_attr d ''name'' = None"
  then show "data_step props d = props" by (simp add: data_step_def)
next
  fix feat assume "placemark_to_feature pm = Some feat"
  then have "properties feat = placemark_props pm" by (rule placemark_to_feature_props)
  then show "[] \<notin> fst ` set (properties feat)" by (simp add: placemark_props_keys)
qed

subsection \<open>The properties on the example documents\<close>

theorem features_have_coordinates_witness:
  "placemark_to_feature no_geometry_pm = None \<and>
   collect_step [] no_geometry_pm = [] \<and>
   polygon_coords polygon_pm \<noteq> [] \<and>
   placemark_to_feature polygon_pm \<noteq> None \<and>
   collect_features sample_doc =
     [\<lparr>properties = [],
       geometry = Polygon [[(Finite False 0, Finite False 0), (Finite False 1, Finite False 0),
                            (Finite False 1, Finite False 1), (Finite False 0, Finite False 0)]]\<rparr>,
      \<lparr>properties = [(''name'', ''A'')],
       geometry = Point (Finite False 1, Finite False 2)\<rparr>] \<and>
   0 < position_count
         (Polygon [[(Finite False 0, Finite False 0), (Finite False 1, Finite False 0),
                    (Finite False 1, Finite False 1), (Finite False 0, Finite False 0)]]) \<and>
   0 < position_count (Point (Finite False 1, Finite False 2))"
proof -
  let ?f1 = "\<lparr>properties = [],
       geometry = Polygon [[(Finite False 0, Finite False 0), (Finite False 1, Finite False 0),
                            (Finite False 1, Finite False 1), (Finite False 0, Finite False 0)]]\<rparr>"
  let ?f2 = "\<lparr>properties = [(''name'', ''A'')],
       geometry = Point (Finite False 1, Finite False 2)\<rparr>"
  note a = features_have_coordinates [of no_geometry_pm "[]" sample_doc]
  note b = features_have_coordinates [of polygon_pm "[]" sample_doc]
  have n: "placemark_to_feature no_geometry_pm = None" by code_simp
  have p: "polygon_coords polygon_pm \<noteq> []" by code_simp
  have c: "collect_features sample_doc = [?f1, ?f2]" by code_simp
  have s: "collect_step [] no_geometry_pm = []"
    by (rule a [THEN conjunct2, THEN conjunct2, THEN conjunct1, THEN mp, OF n])
  have f: "placemark_to_feature polygon_pm \<noteq> None"
    using b [THEN conjunct1] p by (simp only: simp_thms)
  note all = b [THEN conjunct2, THEN conjunct2, THEN conjunct2]
  have m1: "?f1 \<in> set (collect_features sample_doc)" by (simp only: c list.set insertI1)
  have m2: "?f2 \<in> set (collect_features sample_doc)"
    by (simp only: c list.set insertI1 insert_iff simp_thms)
  have "0 < position_count (geometry ?f1)" by (rule all [THEN bspec, OF m1])
  then have c1: "0 < position_count
         (Polygon [[(Finite False 0, Finite False 0), (Finite False 1, Finite False 0),
                    (Finite False 1, Finite False 1), (Finite False 0, Finite False 0)]])"
    by (simp only: feature.select_convs)
  have "0 < position_count (geometry ?f2)" by (rule all [THEN bspec, OF m2])
  then have c2: "0 < position_count (Point (Finite False 1, Finite False 2))"
    by (simp only: feature.select_convs)
  from n s p f c c1 c2 show ?thesis by (intro conjI)
qed

theorem geometry_priority_witness:
  "find_descendant point_and_line_pm (KML_NS @ ''Point'') =
     Some (kml ''Point'' [] None [kml ''coordinates'' [] (Some ''1,2 3,4'') []]) \<and>
   find_descendant point_and_line_pm (KML_NS @ ''LineString'') =
     Some (kml ''LineString'' [] None [kml ''coordinates'' [] (Some ''0,0 1,1'') []]) \<and>
   placemark_to_feature point_and_line_pm =
     Some \<lparr>properties = [], geometry = Point (Finite False 1, Finite False 2)\<rparr>"
proof -
  let ?pt = "kml ''Point'' [] None [kml ''coordinates'' [] (Some ''1,2 3,4'') []]"
  let ?ls = "kml ''LineString'' [] None [kml ''coordinates'' [] (Some ''0,0 1,1'') []]"
  have pt: "find_descendant point_and_line_pm (KML_NS @ ''Point'') = Some ?pt" by code_simp
  have ls: "find_descendant point_and_line_pm (KML_NS @ ''LineString'') = Some ?ls" by code_simp
  have cs: "parse_coordinates (coordinates_text ?pt) =
              (Finite False 1, Finite False 2) # [(Finite False 3, Finite False 4)]"
    by code_simp
  have props: "placemark_props point_and_line_pm = []" by code_simp
  have "placemark_to_feature point_and_line_pm =
     Some \<lparr>properties = placemark_props point_and_line_pm,
            geometry = Point (Finite False 1, Finite False 2)\<rparr>"
    by (rule geometry_priority [of point_and_line_pm, THEN conjunct2, rule_format,
          OF conjI [OF pt conjI [OF ls cs]]])
  then have "placemark_to_feature point_and_line_pm =
     Some \<lparr>properties = [], geometry = Point (Finite False 1, Finite False 2)\<rparr>"
    by (simp only: props)
  with pt ls show ?thesis by (intro conjI)
qed

text \<open>
  Claim C4 as stated fails: this placemark holds both a Point and a LineString, the Point
  has no coordinates, and the feature is a LineString.
\<close>

theorem point_with_line_counterexample:
  "find_descendant empty_point_pm (KML_NS @ ''Point'') = Some (kml ''Point'' [] None []) \<and>
   find_descendant empty_point_pm (KML_NS @ ''LineString'') =
     Some (kml ''LineString'' [] None [kml ''coordinates'' [] (Some ''0,0 1,1'') []]) \<and>
   placemark_to_feature empty_point_pm =
     Some \<lparr>properties = [],
            geometry = LineString [(Finite False 0, Finite False 0),
                                   (Finite False 1, Finite False 1)]\<rparr>"
  by code_simp

theorem point_feature_witness:
  "placemark_to_feature point_and_line_pm =
     Some \<lparr>properties = [], geometry = Point (Finite False 1, Finite False 2)\<rparr> \<and>
   coordinates_text (kml ''Point'' [] None []) = Some [] \<and>
   point_block [] empty_point_pm = None"
proof -
  let ?pt = "kml ''Point'' [] None [kml ''coordinates'' [] (Some ''1,2 3,4'') []]"
  have pt: "find_descendant point_and_line_pm (KML_NS @ ''Point'') = Some ?pt" by code_simp
  have cs: "parse_coordinates (coordinates_text ?pt) =
              (Finite False 1, Finite False 2) # [(Finite False 3, Finite False 4)]"
    by code_simp
  have props: "placemark_props point_and_line_pm = []" by code_simp
  have "placemark_to_feature point_and_line_pm =
     Some \<lparr>properties = placemark_props point_and_line_pm,
            geometry = Point (Finite False 1, Finite False 2)\<rparr>"
    by (rule point_feature [OF pt, of "[]", THEN conjunct1, rule_format, OF cs])
  then have a: "placemark_to_feature point_and_line_pm =
     Some \<lparr>properties = [], geometry = Point (Finite False 1, Finite False 2)\<rparr>"
    by (simp only: props)
  have ept: "find_descendant empty_point_pm (KML_NS @ ''Point'') = Some (kml ''Point'' [] None [])"
    by code_simp
  have nc: "find_child (kml ''Point'' [] None []) (KML_NS @ ''coordinates'') = None"
    by code_simp
  have b: "coordinates_text (kml ''Point'' [] None []) = Some [] \<and>
           point_block [] empty_point_pm = None"
    by (rule point_feature [OF ept, of "[]", THEN conjunct2, rule_format, OF nc])
  from a b show ?thesis by (rule conjI)
qed

theorem polygon_feature_witness:
  "placemark_to_feature polygon_pm =
     Some \<lparr>properties = [],
            geometry = Polygon [[(Finite False 0, Finite False 0), (Finite False 1, Finite False 0),
                                 (Finite False 1, Finite False 1), (Finite False 0, Finite False 0)]]\<rparr> \<and>
   (\<exists>polygon outer ring.
      find_descendant polygon_pm (KML_NS @ ''Polygon'') = Some polygon \<and>
      find_descendant polygon (KML_NS @ ''outerBoundaryIs'') = Some outer \<and>
      ring = parse_coordinates
               (case find_descendant outer (KML_NS @ ''coordinates'') of
                  None \<Rightarrow> Some []
                | Some c \<Rightarrow> etext c) \<and>
      [[(Finite False 0, Finite False 0), (Finite False 1, Finite False 0),
        (Finite False 1, Finite False 1), (Finite False 0, Finite False 0)]] = [ring] \<and>
      ring \<noteq> [])"
proof -
  let ?rings = "[[(Finite False 0, Finite False 0), (Finite False 1, Finite False 0),
                  (Finite False 1, Finite False 1), (Finite False 0, Finite False 0)]]"
  let ?feat = "\<lparr>properties = [], geometry = Polygon ?rings\<rparr>"
  have f: "placemark_to_feature polygon_pm = Some ?feat" by code_simp
  have g: "geometry ?feat = Polygon ?rings" by simp
  from f polygon_feature [OF f g] show ?thesis by (rule conjI)
qed

theorem text_properties_witness:
  "map_of (base_props data_pm) ''name'' = Some ''Stop 1'' \<and>
   placemark_to_feature data_pm =
     Some \<lparr>properties = [(''name'', ''Stop 1''), (''pop'', ''42'')],
            geometry = Point (Finite False 1, Finite False 2)\<rparr> \<and>
   map_of [(''name'', ''Stop 1''), (''pop'', ''42'')] ''name'' =
     stripped_text (find_child data_pm (KML_NS @ ''name''))"
proof -
  let ?feat = "\<lparr>properties = [(''name'', ''Stop 1''), (''pop'', ''42'')],
                geometry = Point (Finite False 1, Finite False 2)\<rparr>"
  have k: "''name'' \<in> {''name'', ''description'', ''styleUrl''}" by simp
  note inst = text_properties [OF k, of data_pm "''Stop 1''"]
  have st: "stripped_text (find_child data_pm (KML_NS @ ''name'')) = Some ''Stop 1''"
    by code_simp
  have ed: "find_child data_pm (KML_NS @ ''ExtendedData'') =
      Some (kml ''ExtendedData'' [] None
          [kml ''Data'' [(''name'', [])] None [kml ''value'' [] (Some ''x'') []],
           kml ''Data'' [(''name'', ''pop'')] None [kml ''value'' [] (Some ''42'') []]])"
    by code_simp
  have names: "\<forall>d \<in> set (findall_children (kml ''ExtendedData'' [] None
          [kml ''Data'' [(''name'', [])] None [kml ''value'' [] (Some ''x'') []],
           kml ''Data'' [(''name'', ''pop'')] None [kml ''value'' [] (Some ''42'') []]])
         (KML_NS @ ''Data'')). get_attr d ''name'' \<noteq> Some ''name''"
    by code_simp
  have f: "placemark_to_feature data_pm = Some ?feat" by code_simp
  have a: "map_of (base_props data_pm) ''name'' = Some ''Stop 1''"
    using inst [THEN conjunct1] by (simp only: st)
  have nodata: "\<forall>e. find_child data_pm (KML_NS @ ''ExtendedData'') = Some e \<longrightarrow>
      (\<forall>d \<in> set (findall_children e (KML_NS @ ''Data'')). get_attr d ''name'' \<noteq> Some ''name'')"
  proof (intro allI impI)
    fix e assume "find_child data_pm (KML_NS @ ''ExtendedData'') = Some e"
    then have e: "e = kml ''ExtendedData'' [] None
          [kml ''Data'' [(''name'', [])] None [kml ''value'' [] (Some ''x'') []],
           kml ''Data'' [(''name'', ''pop'')] None [kml ''value'' [] (Some ''42'') []]]"
      by (simp only: ed option.inject)
    show "\<forall>d \<in> set (findall_children e (KML_NS @ ''Data'')).
        get_attr d ''name'' \<noteq> Some ''name''"
      unfolding e by (rule names)
  qed
  have "map_of (properties ?feat) ''name'' =
          stripped_text (find_child data_pm (KML_NS @ ''name''))"
    by (rule inst [THEN conjunct2, THEN conjunct2, THEN mp, OF nodata, THEN spec, THEN mp, OF f])
  then have b: "map_of [(''name'', ''Stop 1''), (''pop'', ''42'')] ''name'' =
     stripped_text (find_child data_pm (KML_NS @ ''name''))"
    by simp
  from a f b show ?thesis by (intro conjI)
qed

text \<open>
  Claim C2 as stated fails: the text of the name is empty after trimming, and the
  properties hold the key \<^verbatim>\<open>name\<close> with the empty string.
\<close>

theorem blank_name_counterexample:
  "placemark_to_feature blank_name_pm =
     Some \<lparr>properties = [(''name'', [])], geometry = Point (Finite False 1, Finite False 2)\<rparr> \<and>
   find_child blank_name_pm (KML_NS @ ''name'') = Some (kml ''name'' [] (Some '' '') []) \<and>
   strip '' '' = []"
  by code_simp

theorem empty_data_name_skipped_witness:
  "data_step [(''name'', ''Stop 1'')]
     (kml ''Data'' [(''name'', [])] None [kml ''value'' [] (Some ''x'') []]) =
     [(''name'', ''Stop 1'')] \<and>
   placemark_to_feature data_pm =
     Some \<lparr>properties = [(''name'', ''Stop 1''), (''pop'', ''42'')],
            geometry = Point (Finite False 1, Finite False 2)\<rparr> \<and>
   [] \<notin> fst ` set [(''name'', ''Stop 1''), (''pop'', ''42'')]"
proof -
  let ?d = "kml ''Data'' [(''name'', [])] None [kml ''value'' [] (Some ''x'') []]"
  let ?feat = "\<lparr>properties = [(''name'', ''Stop 1''), (''pop'', ''42'')],
                geometry = Point (Finite False 1, Finite False 2)\<rparr>"
  note inst = empty_data_name_skipped [of ?d "[(''name'', ''Stop 1'')]" data_pm]
  have key: "get_attr ?d ''name'' = Some []" by code_simp
  have f: "placemark_to_feature data_pm = Some ?feat" by code_simp
  have a: "data_step [(''name'', ''Stop 1'')] ?d = [(''name'', ''Stop 1'')]"
    by (rule inst [THEN conjunct1, THEN mp, OF key])
  have "[] \<notin> fst ` set (properties ?feat)"
    by (rule inst [THEN conjunct2, THEN conjunct2, THEN spec, THEN mp, OF f])
  then have b: "[] \<notin> fst ` set [(''name'', ''Stop 1''), (''pop'', ''42'')]"
    by simp
  from a f b show ?thesis by (intro conjI)
qed

subsection \<open>The document walker\<close>

lemma positions_iter_aux:
  "map (subtree_at e) (positions e) = map Some (iter e)"
  "\<And>t a x pre. length pre = i \<Longrightarrow>
     map (subtree_at (Element t a x (pre @ cs))) (positions_from i cs) =
     map Some (concat (map iter cs))"
proof (induction e and i cs rule: positions_positions_from.induct)
  case (1 t a x cs)
  have "map (subtree_at (Element t a x ([] @ cs))) (positions_from 0 cs) =
        map Some (concat (map iter cs))"
    by (rule "1.IH") simp
  then show ?case by simp
next
  case (2 i)
  show ?case by simp
next
  case (3 i c cs)
  let ?E = "Element t a x (pre @ c # cs)"
  have here: "subtree_at ?E (i # q) = subtree_at c q" for q
    using "3.prems" by (simp add: nth_append)
  have "map (subtree_at ?E) (map ((#) i) (positions c)) = map (subtree_at c) (positions c)"
    by (simp only: map_map comp_def here)
  then have first: "map (subtree_at ?E) (map ((#) i) (positions c)) = map Some (iter c)"
    by (simp only: "3.IH"(1))
  have "map (subtree_at (Element t a x ((pre @ [c]) @ cs))) (positions_from (Suc i) cs) =
        map Some (concat (map iter cs))"
    by (rule "3.IH"(2)) (simp add: "3.prems")
  then have rest: "map (subtree_at ?E) (positions_from (Suc i) cs) =
        map Some (concat (map iter cs))"
    by simp
  show ?case using first rest by simp
qed

lemma positions_descendants:
  "map (subtree_at e) (positions_from 0 (children e)) = map Some (descendants e)"
proof (cases e)
  case (Element t a x cs)
  have "map (subtree_at (Element t a x ([] @ cs))) (positions_from 0 cs) =
        map Some (concat (map iter cs))"
    by (rule positions_iter_aux(2)) simp
  with Element show ?thesis by (simp add: descendants_def)
qed

lemma positions_set_aux:
  "set (positions e) = {p. subtree_at e p \<noteq> None}"
  "set (positions_from i cs) =
     {j # q | j q. i \<le> j \<and> j < i + length cs \<and> subtree_at (cs ! (j - i)) q \<noteq> None}"
proof (induction e and i cs rule: positions_positions_from.induct)
  case (1 t a x cs)
  show ?case
  proof (rule set_eqI)
    fix p
    show "p \<in> set (positions (Element t a x cs)) \<longleftrightarrow>
          p \<in> {p. subtree_at (Element t a x cs) p \<noteq> None}"
      by (cases p) (auto simp: "1.IH")
  qed
next
  case (2 i)
  show ?case by simp
next
  case (3 i c cs)
  show ?case
  proof (rule set_eqI)
    fix p
    show "p \<in> set (positions_from i (c # cs)) \<longleftrightarrow>
          p \<in> {j # q | j q. i \<le> j \<and> j < i + length (c # cs) \<and>
                  subtree_at ((c # cs) ! (j - i)) q \<noteq> None}"
    proof (cases p)
      case Nil
      then show ?thesis by (auto simp: "3.IH")
    next
      case (Cons j q)
      show ?thesis
      proof (cases "j = i")
        case True
        with Cons show ?thesis by (auto simp: "3.IH")
      next
        case False
        have "(c # cs) ! (j - i) = cs ! (j - Suc i)" if "i \<le> j"
        proof -
          from that False have "j - i = Suc (j - Suc i)" by arith
          then show ?thesis by simp
        qed
        with Cons False show ?thesis
          by (auto simp: "3.IH")
      qed
    qed
  qed
qed

lemma positions_from_set:
  "set (positions_from 0 (children e)) = {p. p \<noteq> [] \<and> subtree_at e p \<noteq> None}"
proof (rule set_eqI)
  fix p
  show "p \<in> set (positions_from 0 (children e)) \<longleftrightarrow>
        p \<in> {p. p \<noteq> [] \<and> subtree_at e p \<noteq> None}"
    by (cases p) (auto simp: positions_set_aux(2))
qed

lemma positions_sorted_aux:
  "sorted_wrt doc_before (positions e)"
  "sorted_wrt doc_before (positions_from i cs)"
proof (induction e and i cs rule: positions_positions_from.induct)
  case (1 t a x cs)
  have "\<forall>p \<in> set (positions_from 0 cs). doc_before [] p"
    by (auto simp: positions_set_aux(2))
  with "1.IH" show ?case by simp
next
  case (2 i)
  show ?case by simp
next
  case (3 i c cs)
  have a: "sorted_wrt doc_before (map ((#) i) (positions c))"
    using "3.IH"(1) by (simp add: sorted_wrt_map)
  have b: "\<forall>p \<in> set (map ((#) i) (positions c)).
             \<forall>q \<in> set (positions_from (Suc i) cs). doc_before p q"
    by (auto simp: positions_set_aux(2))
  from a b "3.IH"(2) show ?case by (simp add: sorted_wrt_append)
qed

lemma map_filter_positions:
  "map g qs = map Some es \<Longrightarrow>
     List.map_filter (\<lambda>p. Option.bind (g p) f)
       (filter (\<lambda>p. case g p of None \<Rightarrow> False | Some e \<Rightarrow> P e) qs) =
     List.map_filter f (filter P es)"
proof (induction qs arbitrary: es)
  case Nil
  then show ?case by simp
next
  case (Cons q qs)
  from Cons.prems obtain e es' where es: "es = e # es'" and q: "g q = Some e"
    and rest: "map g qs = map Some es'"
    by (cases es) auto
  from Cons.IH [OF rest] es q show ?case
    by (auto split: option.splits)
qed

text \<open>
  Claim C8, as the code has it. The placemarks visited are those at the positions \<open>ps\<close>:
  every position other than the root's at which the document has a Placemark element, at
  any depth, listed in document order. The feature list holds, in that order, the
  features of the placemarks that have one. When the input is read and parsed, the
  conversion returns exactly when the output path can be written, and a conversion that
  returns gives the length of the feature list of the parsed document and has written
  that list to the output file.
\<close>

theorem placemarks_in_document_order:
  "(\<exists>ps. (\<forall>p. p \<in> set ps \<longleftrightarrow>
               p \<noteq> [] \<and> (\<exists>pm. subtree_at doc_root p = Some pm \<and> tag pm = KML_NS @ ''Placemark'')) \<and>
         sorted_wrt doc_before ps \<and>
         collect_features doc_root =
           List.map_filter (\<lambda>p. Option.bind (subtree_at doc_root p) placemark_to_feature) ps) \<and>
   (can_read fs in_path \<and> files fs in_path = Some doc \<and> xml_parse doc = Some doc_root \<longrightarrow>
      convert xml_parse json_dump fs in_path out_path =
        (if can_write fs out_path
         then Inr (length (collect_features doc_root),
                   fs\<lparr>files := (files fs)(out_path \<mapsto> json_dump (collect_features doc_root))\<rparr>)
         else Inl OutputOSError)) \<and>
   (convert xml_parse json_dump fs in_path out_path = Inr (n, fs') \<longrightarrow>
      (\<exists>d r. can_read fs in_path \<and> files fs in_path = Some d \<and> xml_parse d = Some r \<and>
             can_write fs out_path \<and>
             n = length (collect_features r) \<and>
             files fs' out_path = Some (json_dump (collect_features r))))"
proof (intro conjI)
  let ?T = "KML_NS @ ''Placemark''"
  let ?qs = "positions_from 0 (children doc_root)"
  let ?ps = "filter (\<lambda>p. case subtree_at doc_root p of None \<Rightarrow> False | Some e \<Rightarrow> tag e = ?T) ?qs"
  have mem: "\<forall>p. p \<in> set ?ps \<longleftrightarrow>
               p \<noteq> [] \<and> (\<exists>pm. subtree_at doc_root p = Some pm \<and> tag pm = ?T)"
    by (auto simp: positions_from_set split: option.splits)
  have "sorted_wrt doc_before ?qs" by (rule positions_sorted_aux(2))
  then have sorted: "sorted_wrt doc_before ?ps" by (rule sorted_wrt_filter)
  have "List.map_filter (\<lambda>p. Option.bind (subtree_at doc_root p) placemark_to_feature) ?ps =
        List.map_filter placemark_to_feature (filter (\<lambda>e. tag e = ?T) (descendants doc_root))"
    using positions_descendants [of doc_root] by (rule map_filter_positions)
  then have feats: "collect_features doc_root =
      List.map_filter (\<lambda>p. Option.bind (subtree_at doc_root p) placemark_to_feature) ?ps"
    by (simp add: collect_features_map_filter findall_descendants_def)
  from mem sorted feats
  show "\<exists>ps. (\<forall>p. p \<in> set ps \<longleftrightarrow>
               p \<noteq> [] \<and> (\<exists>pm. subtree_at doc_root p = Some pm \<and> tag pm = ?T)) \<and>
         sorted_wrt doc_before ps \<and>
         collect_features doc_root =
           List.map_filter (\<lambda>p. Option.bind (subtree_at doc_root p) placemark_to_feature) ps"
    by (intro exI [of _ ?ps] conjI)
next
  show "can_read fs in_path \<and> files fs in_path = Some doc \<and> xml_parse doc = Some doc_root \<longrightarrow>
      convert xml_parse json_dump fs in_path out_path =
        (if can_write fs out_path
         then Inr (length (collect_features doc_root),
                   fs\<lparr>files := (files fs)(out_path \<mapsto> json_dump (collect_features doc_root))\<rparr>)
         else Inl OutputOSError)"
    by (simp add: convert_def Let_def)
next
  show "convert xml_parse json_dump fs in_path out_path = Inr (n, fs') \<longrightarrow>
      (\<exists>d r. can_read fs in_path \<and> files fs in_path = Some d \<and> xml_parse d = Some r \<and>
             can_write fs out_path \<and>
             n = length (collect_features r) \<and>
             files fs' out_path = Some (json_dump (collect_features r)))"
    by (auto simp: convert_def Let_def split: option.splits if_splits)
qed

theorem placemarks_in_document_order_witness:
  "(\<exists>ps. [0, 0, 1] \<in> set ps \<and> [0, 1] \<in> set ps \<and> [0] \<notin> set ps \<and> sorted_wrt doc_before ps \<and>
         collect_features sample_doc =
           List.map_filter (\<lambda>p. Option.bind (subtree_at sample_doc p) placemark_to_feature) ps) \<and>
   convert (\<lambda>s. if s = ''<kml/>'' then Some sample_doc else None) (\<lambda>f. ''{}'')
     \<lparr>files = Map.empty(''in.kml'' \<mapsto> ''<kml/>''), can_read = (\<lambda>p. True),
      can_write = (\<lambda>p. p = ''out.geojson'')\<rparr> ''in.kml'' ''out.geojson'' =
     Inr (2, \<lparr>files = Map.empty(''in.kml'' \<mapsto> ''<kml/>'', ''out.geojson'' \<mapsto> ''{}''),
              can_read = (\<lambda>p. True), can_write = (\<lambda>p. p = ''out.geojson'')\<rparr>) \<and>
   convert (\<lambda>s. if s = ''<kml/>'' then Some sample_doc else None) (\<lambda>f. ''{}'')
     \<lparr>files = Map.empty(''in.kml'' \<mapsto> ''<kml/>''), can_read = (\<lambda>p. True),
      can_write = (\<lambda>p. p = ''out.geojson'')\<rparr> ''in.kml'' ''missing/out.geojson'' =
     Inl OutputOSError \<and>
   (\<exists>d r. (if d = ''<kml/>'' then Some sample_doc else None) = Some r \<and>
          2 = length (collect_features r))"
proof -
  let ?xml = "\<lambda>s. if s = ''<kml/>'' then Some sample_doc else None"
  let ?json = "\<lambda>f :: feature list. ''{}''"
  let ?fs = "\<lparr>files = Map.empty(''in.kml'' \<mapsto> ''<kml/>''), can_read = (\<lambda>p. True),
      can_write = (\<lambda>p. p = ''out.geojson'')\<rparr>"
  let ?fs' = "\<lparr>files = Map.empty(''in.kml'' \<mapsto> ''<kml/>'', ''out.geojson'' \<mapsto> ''{}''),
              can_read = (\<lambda>p. True), can_write = (\<lambda>p. p = ''out.geojson'')\<rparr>"
  note inst = placemarks_in_document_order
    [where doc_root = sample_doc and fs = ?fs and in_path = "''in.kml''" and doc = "''<kml/>''"
       and xml_parse = ?xml and json_dump = ?json and n = 2 and fs' = ?fs']
  from inst [where out_path = "''out.geojson''", THEN conjunct1] obtain ps where
    mem: "\<forall>p. p \<in> set ps \<longleftrightarrow>
               p \<noteq> [] \<and> (\<exists>pm. subtree_at sample_doc p = Some pm \<and> tag pm = KML_NS @ ''Placemark'')"
    and sorted: "sorted_wrt doc_before ps"
    and feats: "collect_features sample_doc =
           List.map_filter (\<lambda>p. Option.bind (subtree_at sample_doc p) placemark_to_feature) ps"
    by (elim exE conjE)
  have s1: "subtree_at sample_doc [0, 0, 1] = Some no_geometry_pm" by code_simp
  have t1: "tag no_geometry_pm = KML_NS @ ''Placemark''" by code_simp
  have s2: "subtree_at sample_doc [0, 1] = Some point_pm" by code_simp
  have t2: "tag point_pm = KML_NS @ ''Placemark''" by code_simp
  have s3: "subtree_at sample_doc [0] =
      Some (kml ''Document'' [] None
          [kml ''Folder'' [] None [kml ''Folder'' [] None [polygon_pm], no_geometry_pm],
           point_pm])" by code_simp
  have t3: "tag (kml ''Document'' [] None
          [kml ''Folder'' [] None [kml ''Folder'' [] None [polygon_pm], no_geometry_pm],
           point_pm]) \<noteq> KML_NS @ ''Placemark''" by code_simp
  have m1: "[0, 0, 1] \<in> set ps" using mem s1 t1 by simp
  have m2: "[0, 1] \<in> set ps" using mem s2 t2 by simp
  have m3: "[0] \<notin> set ps" using mem s3 t3 by simp
  have ex: "\<exists>ps. [0, 0, 1] \<in> set ps \<and> [0, 1] \<in> set ps \<and> [0] \<notin> set ps \<and> sorted_wrt doc_before ps \<and>
         collect_features sample_doc =
           List.map_filter (\<lambda>p. Option.bind (subtree_at sample_doc p) placemark_to_feature) ps"
    using m1 m2 m3 sorted feats by (intro exI [of _ ps] conjI)
  have hyp: "can_read ?fs ''in.kml'' \<and> files ?fs ''in.kml'' = Some ''<kml/>'' \<and>
             ?xml ''<kml/>'' = Some sample_doc"
    by simp
  have len: "length (collect_features sample_doc) = 2" by code_simp
  have "convert ?xml ?json ?fs ''in.kml'' ''out.geojson'' =
        (if can_write ?fs ''out.geojson''
         then Inr (length (collect_features sample_doc),
                   ?fs\<lparr>files := (files ?fs)(''out.geojson'' \<mapsto> ''{}'')\<rparr>)
         else Inl OutputOSError)"
    by (rule inst [where out_path = "''out.geojson''", THEN conjunct2, THEN conjunct1, THEN mp,
          OF hyp])
  then have ok: "convert ?xml ?json ?fs ''in.kml'' ''out.geojson'' = Inr (2, ?fs')"
    by (simp add: len)
  have "convert ?xml ?json ?fs ''in.kml'' ''missing/out.geojson'' =
        (if can_write ?fs ''missing/out.geojson''
         then Inr (length (collect_features sample_doc),
                   ?fs\<lparr>files := (files ?fs)(''missing/out.geojson'' \<mapsto> ''{}'')\<rparr>)
         else Inl OutputOSError)"
    by (rule inst [where out_path = "''missing/out.geojson''", THEN conjunct2, THEN conjunct1,
          THEN mp, OF hyp])
  then have refused: "convert ?xml ?json ?fs ''in.kml'' ''missing/out.geojson'' = Inl OutputOSError"
    by simp
  from inst [where out_path = "''out.geojson''", THEN conjunct2, THEN conjunct2, THEN mp, OF ok]
  obtain d r where "?xml d = Some r" and "2 = length (collect_features r)"
    by (elim exE conjE)
  then have parsed: "\<exists>d r. (if d = ''<kml/>'' then Some sample_doc else None) = Some r \<and>
          2 = length (collect_features r)"
    by (intro exI [of _ d] exI [of _ r] conjI)
  from ex ok refused parsed show ?thesis by (intro conjI)
qed

text \<open>
  Claim C8 as stated fails: a root element that is itself a Placemark, and has a feature,
  is not visited.
\<close>

theorem root_placemark_counterexample:
  "tag point_pm = KML_NS @ ''Placemark'' \<and>
   subtree_at point_pm [] = Some point_pm \<and>
   placemark_to_feature point_pm =
     Some \<lparr>properties = [(''name'', ''A'')], geometry = Point (Finite False 1, Finite False 2)\<rparr> \<and>
   collect_features point_pm = []"
  by code_simp

end
